theory Spec2Isabelle
  imports Complex_Main "HOL-Library.AList" "HOL-Library.Multiset" "HOL-Library.Sublist" "HOL-Library.Char_ord" "HOL-Library.List_Lexorder"
begin

section \<open>Python strings\<close>

text \<open>
  A Python \<open>str\<close> is modelled as a \<^typ>\<open>string\<close> whose characters are the code points
  U+0000 .. U+00FF.  Within this range the library functions used by the program
  (\<open>str.lower\<close>, \<open>str.strip\<close>, \<open>str.splitlines\<close>, the \<open>in\<close> operator) are written out
  below as CPython defines them.  The order on strings of \<open>HOL-Library.List_Lexorder\<close>
  and \<open>HOL-Library.Char_ord\<close> is the lexicographic order by code point, which is the
  order Python uses to compare strings.
\<close>

definition code :: "char \<Rightarrow> nat" where
  "code c = of_char c"

text \<open>\<open>str.lower\<close>: A-Z and the capital letters U+00C0 .. U+00DE (without the
  multiplication sign U+00D7) move up by 32; every other character stays.\<close>

definition lower_char :: "char \<Rightarrow> char" where
  "lower_char c =
     (if (65 \<le> code c \<and> code c \<le> 90) \<or> (192 \<le> code c \<and> code c \<le> 222 \<and> code c \<noteq> 215)
      then char_of (code c + 32) else c)"

definition lower :: "string \<Rightarrow> string" where
  "lower s = map lower_char s"

text \<open>\<open>str.isspace\<close> on one character: TAB, LF, VT, FF, CR, FS, GS, RS, US, SPACE,
  NEL (U+0085) and NBSP (U+00A0).\<close>

definition isspace :: "char \<Rightarrow> bool" where
  "isspace c = (code c \<in> {9, 10, 11, 12, 13, 28, 29, 30, 31, 32, 133, 160})"

definition strip :: "string \<Rightarrow> string" where
  "strip s = rev (dropWhile isspace (rev (dropWhile isspace s)))"

text \<open>The line boundaries of \<open>str.splitlines\<close>: LF, VT, FF, CR, FS, GS, RS and NEL
  (U+0085); CR LF counts as one boundary.\<close>

definition is_linebreak :: "char \<Rightarrow> bool" where
  "is_linebreak c = (code c \<in> {10, 11, 12, 13, 28, 29, 30, 133})"

fun splitlines_from :: "string \<Rightarrow> string \<Rightarrow> string list" where
  "splitlines_from cur [] = (if cur = [] then [] else [cur])"
| "splitlines_from cur (c # cs) =
     (if code c = 13 then
        (case cs of
           [] \<Rightarrow> [cur]
         | d # ds \<Rightarrow> if code d = 10 then cur # splitlines_from [] ds
                    else cur # splitlines_from [] (d # ds))
      else if is_linebreak c then cur # splitlines_from [] cs
      else splitlines_from (cur @ [c]) cs)"

definition splitlines :: "string \<Rightarrow> string list" where
  "splitlines s = splitlines_from [] s"

text \<open>\<open>q in s\<close> for strings: \<open>q\<close> occurs as a contiguous block of \<open>s\<close>.\<close>

fun contains :: "string \<Rightarrow> string \<Rightarrow> bool" where
  "contains [] q = (q = [])"
| "contains (c # cs) q = (prefix q (c # cs) \<or> contains cs q)"

section \<open>JSON values and \<open>json.dumps\<close>\<close>

text \<open>
  The Python values that \<open>json.loads\<close> can return and that \<open>json.dumps\<close> can print.
  A \<open>dict\<close> is an association list in insertion order.  A finite \<open>float\<close> is modelled
  by the real number it denotes; the program only compares floats, which is exact.
  The conversion between floats and their text (\<open>float.__repr__\<close> and \<open>float()\<close>) is
  outside this development, so the printer and the parser take it as an argument.
\<close>

datatype json =
    JNull
  | JBool bool
  | JInt int
  | JFloat real
  | JStr string
  | JArr "json list"
  | JObj "(string \<times> json) list"

definition digit_char :: "nat \<Rightarrow> char" where
  "digit_char d = char_of (48 + d)"

fun show_nat :: "nat \<Rightarrow> string" where
  "show_nat n = (if n < 10 then [digit_char n] else show_nat (n div 10) @ [digit_char (n mod 10)])"

declare show_nat.simps [simp del]

definition show_int :: "int \<Rightarrow> string" where
  "show_int i = (if i < 0 then CHR ''-'' # show_nat (nat (- i)) else show_nat (nat i))"

definition hex_char :: "nat \<Rightarrow> char" where
  "hex_char d = (if d < 10 then char_of (48 + d) else char_of (87 + d))"

text \<open>The string encoder of \<open>json.dumps(..., ensure_ascii=False)\<close>: only the quote,
  the backslash and the control characters below U+0020 are escaped; every other
  character, U+0085 included, is written as it is.\<close>

definition escape_char :: "char \<Rightarrow> string" where
  "escape_char c =
     (if code c = 34 then [CHR 0x5C, CHR 0x22]
      else if code c = 92 then [CHR 0x5C, CHR 0x5C]
      else if code c = 10 then [CHR 0x5C, CHR ''n'']
      else if code c = 13 then [CHR 0x5C, CHR ''r'']
      else if code c = 9 then [CHR 0x5C, CHR ''t'']
      else if code c = 8 then [CHR 0x5C, CHR ''b'']
      else if code c = 12 then [CHR 0x5C, CHR ''f'']
      else if code c < 32 then
        [CHR 0x5C, CHR ''u'', CHR ''0'', CHR ''0'', hex_char (code c div 16), hex_char (code c mod 16)]
      else [c])"

definition quote :: "string \<Rightarrow> string" where
  "quote s = CHR 0x22 # concat (map escape_char s) @ [CHR 0x22]"

fun join :: "string \<Rightarrow> string list \<Rightarrow> string" where
  "join sep [] = []"
| "join sep [x] = x"
| "join sep (x # y # ys) = x @ sep @ join sep (y # ys)"

text \<open>\<open>json.dumps\<close> with the default separators \<open>", "\<close> and \<open>": "\<close>.\<close>

fun dumps :: "(real \<Rightarrow> string) \<Rightarrow> json \<Rightarrow> string" where
  "dumps float_repr JNull = ''null''"
| "dumps float_repr (JBool b) = (if b then ''true'' else ''false'')"
| "dumps float_repr (JInt i) = show_int i"
| "dumps float_repr (JFloat x) = float_repr x"
| "dumps float_repr (JStr s) = quote s"
| "dumps float_repr (JArr xs) = ''['' @ join '', '' (map (dumps float_repr) xs) @ '']''"
| "dumps float_repr (JObj kvs) =
     ''{'' @ join '', '' (map (\<lambda>kv. quote (fst kv) @ '': '' @ dumps float_repr (snd kv)) kvs) @ ''}''"

section \<open>\<open>json.loads\<close>\<close>

text \<open>
  The outcomes of the program other than a value: the exceptions that occur, and
  \<open>OutsideModel\<close> for an input whose result this development does not represent (a
  character beyond U+00FF, a float in a file that is not finite, a field whose type is
  not the annotated one, an integer literal beyond CPython's digit limit).
\<close>

datatype pyerr = JSONDecodeError | KeyError | TypeError | OverflowError | OutsideModel

definition bind_err :: "pyerr + 'a \<Rightarrow> ('a \<Rightarrow> pyerr + 'b) \<Rightarrow> pyerr + 'b" where
  "bind_err m f = (case m of Inl e \<Rightarrow> Inl e | Inr x \<Rightarrow> f x)"

definition is_ws :: "char \<Rightarrow> bool" where
  "is_ws c = (code c \<in> {32, 9, 10, 13})"

definition skip_ws :: "string \<Rightarrow> string" where
  "skip_ws s = dropWhile is_ws s"

definition is_digit :: "char \<Rightarrow> bool" where
  "is_digit c = (48 \<le> code c \<and> code c \<le> 57)"

definition hex_val :: "char \<Rightarrow> nat option" where
  "hex_val c =
     (if 48 \<le> code c \<and> code c \<le> 57 then Some (code c - 48)
      else if 97 \<le> code c \<and> code c \<le> 102 then Some (code c - 87)
      else if 65 \<le> code c \<and> code c \<le> 70 then Some (code c - 55)
      else None)"

definition hex4 :: "char \<Rightarrow> char \<Rightarrow> char \<Rightarrow> char \<Rightarrow> nat option" where
  "hex4 a b c d =
     (case (hex_val a, hex_val b, hex_val c, hex_val d) of
        (Some w, Some x, Some y, Some z) \<Rightarrow> Some (4096 * w + 256 * x + 16 * y + z)
      | _ \<Rightarrow> None)"

text \<open>The one-character escapes of a JSON string.\<close>

definition unescape :: "char \<Rightarrow> char option" where
  "unescape e =
     (if code e = 34 then Some (CHR 0x22)
      else if code e = 92 then Some (CHR 0x5C)
      else if code e = 47 then Some (CHR ''/'')
      else if e = CHR ''b'' then Some (CHR 0x08)
      else if e = CHR ''f'' then Some (CHR 0x0C)
      else if e = CHR ''n'' then Some (CHR 0x0A)
      else if e = CHR ''r'' then Some (CHR 0x0D)
      else if e = CHR ''t'' then Some (CHR 0x09)
      else None)"

definition cons_str :: "char \<Rightarrow> pyerr + (string \<times> string) \<Rightarrow> pyerr + (string \<times> string)" where
  "cons_str c r = (case r of Inl e \<Rightarrow> Inl e | Inr (s, rest) \<Rightarrow> Inr (c # s, rest))"

text \<open>\<open>scanstring\<close> in strict mode, started after the opening quote: returns the
  decoded string and the input after the closing quote.\<close>

fun scanstring :: "string \<Rightarrow> pyerr + (string \<times> string)" where
  "scanstring [] = Inl JSONDecodeError"
| "scanstring (c # cs) =
     (if code c = 34 then Inr ([], cs)
      else if code c = 92 then
        (case cs of
           [] \<Rightarrow> Inl JSONDecodeError
         | e # es \<Rightarrow>
             if e = CHR ''u'' then
               (case es of
                  h1 # h2 # h3 # h4 # rest \<Rightarrow>
                    (case hex4 h1 h2 h3 h4 of
                       None \<Rightarrow> Inl JSONDecodeError
                     | Some n \<Rightarrow> if n < 256 then cons_str (char_of n) (scanstring rest)
                                else Inl OutsideModel)
                | _ \<Rightarrow> Inl JSONDecodeError)
             else
               (case unescape e of
                  None \<Rightarrow> Inl JSONDecodeError
                | Some ch \<Rightarrow> cons_str ch (scanstring es)))
      else if code c < 32 then Inl JSONDecodeError
      else cons_str c (scanstring cs))"

text \<open>The number token at the head of the input, as the scanner's pattern
  \<open>-?(0|[1-9]\d*)(\.\d+)?([eE][-+]?\d+)?\<close> matches it: the token, whether it has a
  fraction or an exponent, and the input after it.\<close>

definition scan_frac :: "string \<Rightarrow> string \<times> string" where
  "scan_frac s =
     (case s of
        p # d # ds \<Rightarrow>
          if p = CHR ''.'' \<and> is_digit d
          then (p # takeWhile is_digit (d # ds), dropWhile is_digit (d # ds))
          else ([], s)
      | _ \<Rightarrow> ([], s))"

definition scan_exp :: "string \<Rightarrow> string \<times> string" where
  "scan_exp s =
     (case s of
        [] \<Rightarrow> ([], s)
      | e # r \<Rightarrow>
          if e = CHR ''e'' \<or> e = CHR ''E'' then
            (case r of
               [] \<Rightarrow> ([], s)
             | g # r' \<Rightarrow>
                 if g = CHR ''+'' \<or> g = CHR ''-'' then
                   (case r' of
                      [] \<Rightarrow> ([], s)
                    | d # ds \<Rightarrow>
                        if is_digit d
                        then (e # g # takeWhile is_digit r', dropWhile is_digit r')
                        else ([], s))
                 else if is_digit g then (e # takeWhile is_digit r, dropWhile is_digit r)
                 else ([], s))
          else ([], s))"

definition scan_int :: "string \<Rightarrow> (string \<times> string) option" where
  "scan_int s =
     (let sign = (case s of [] \<Rightarrow> [] | c # cs \<Rightarrow> if c = CHR ''-'' then [c] else []);
          s1 = drop (length sign) s
      in case s1 of
           [] \<Rightarrow> None
         | c # cs \<Rightarrow>
             if c = CHR ''0'' then Some (sign @ [c], cs)
             else if is_digit c then Some (sign @ c # takeWhile is_digit cs, dropWhile is_digit cs)
             else None)"

definition read_nat :: "string \<Rightarrow> nat" where
  "read_nat ds = foldl (\<lambda>a c. 10 * a + (code c - 48)) 0 ds"

definition read_int :: "string \<Rightarrow> int" where
  "read_int s =
     (case s of
        [] \<Rightarrow> 0
      | c # cs \<Rightarrow> if c = CHR ''-'' then - int (read_nat cs) else int (read_nat s))"

definition scan_number :: "(string \<Rightarrow> real option) \<Rightarrow> string \<Rightarrow> (pyerr + (json \<times> string)) option" where
  "scan_number parse_float s =
     (case scan_int s of
        None \<Rightarrow> None
      | Some (integer, r1) \<Rightarrow>
          (let (frac, r2) = scan_frac r1; (exp, r3) = scan_exp r2
           in if frac \<noteq> [] \<or> exp \<noteq> [] then
                (case parse_float (integer @ frac @ exp) of
                   None \<Rightarrow> Some (Inl OutsideModel)
                 | Some x \<Rightarrow> Some (Inr (JFloat x, r3)))
              else if length integer > 4300 then Some (Inl OutsideModel)
              else Some (Inr (JInt (read_int integer), r3))))"

text \<open>
  \<open>scan_once\<close> with \<open>JSONObject\<close> and \<open>JSONArray\<close>.  The first argument bounds the number
  of nested calls; \<open>loads\<close> starts it at twice the length of the input plus two (of two
  nested calls at least one consumes a character), and a run that uses it up ends in
  \<open>OutsideModel\<close>.  \<open>parse_members\<close> starts after the opening
  quote of a key, \<open>parse_elems\<close> at the first character of an element.
\<close>

fun parse_value :: "(string \<Rightarrow> real option) \<Rightarrow> nat \<Rightarrow> string \<Rightarrow> pyerr + (json \<times> string)"
  and parse_members :: "(string \<Rightarrow> real option) \<Rightarrow> nat \<Rightarrow> string \<Rightarrow> pyerr + ((string \<times> json) list \<times> string)"
  and parse_elems :: "(string \<Rightarrow> real option) \<Rightarrow> nat \<Rightarrow> string \<Rightarrow> pyerr + (json list \<times> string)"
where
  "parse_value pf 0 s = Inl OutsideModel"
| "parse_value pf (Suc n) s =
     (case s of
        [] \<Rightarrow> Inl JSONDecodeError
      | c # cs \<Rightarrow>
          if code c = 34 then
            (case scanstring cs of Inl e \<Rightarrow> Inl e | Inr (str, rest) \<Rightarrow> Inr (JStr str, rest))
          else if c = CHR ''{'' then
            (case skip_ws cs of
               [] \<Rightarrow> Inl JSONDecodeError
             | d # ds \<Rightarrow>
                 if d = CHR ''}'' then Inr (JObj [], ds)
                 else if code d = 34 then
                   (case parse_members pf n ds of
                      Inl e \<Rightarrow> Inl e
                    | Inr (kvs, rest) \<Rightarrow> Inr (JObj (foldl (\<lambda>d kv. AList.update (fst kv) (snd kv) d) [] kvs), rest))
                 else Inl JSONDecodeError)
          else if c = CHR ''['' then
            (case skip_ws cs of
               [] \<Rightarrow> Inl JSONDecodeError
             | d # ds \<Rightarrow>
                 if d = CHR '']'' then Inr (JArr [], ds)
                 else
                   (case parse_elems pf n (d # ds) of
                      Inl e \<Rightarrow> Inl e
                    | Inr (xs, rest) \<Rightarrow> Inr (JArr xs, rest)))
          else if prefix ''null'' s then Inr (JNull, drop 4 s)
          else if prefix ''true'' s then Inr (JBool True, drop 4 s)
          else if prefix ''false'' s then Inr (JBool False, drop 5 s)
          else
            (case scan_number pf s of
               Some r \<Rightarrow> r
             | None \<Rightarrow>
                 if prefix ''NaN'' s \<or> prefix ''Infinity'' s \<or> prefix ''-Infinity'' s
                 then Inl OutsideModel
                 else Inl JSONDecodeError))"
| "parse_members pf 0 s = Inl OutsideModel"
| "parse_members pf (Suc n) s =
     (case scanstring s of
        Inl e \<Rightarrow> Inl e
      | Inr (key, r1) \<Rightarrow>
          (case skip_ws r1 of
             [] \<Rightarrow> Inl JSONDecodeError
           | c # r2 \<Rightarrow>
               if c \<noteq> CHR '':'' then Inl JSONDecodeError
               else
                 (case parse_value pf n (skip_ws r2) of
                    Inl e \<Rightarrow> Inl e
                  | Inr (v, r3) \<Rightarrow>
                      (case skip_ws r3 of
                         [] \<Rightarrow> Inl JSONDecodeError
                       | d # r4 \<Rightarrow>
                           if d = CHR ''}'' then Inr ([(key, v)], r4)
                           else if d \<noteq> CHR '','' then Inl JSONDecodeError
                           else
                             (case skip_ws r4 of
                                [] \<Rightarrow> Inl JSONDecodeError
                              | q # r5 \<Rightarrow>
                                  if code q \<noteq> 34 then Inl JSONDecodeError
                                  else
                                    (case parse_members pf n r5 of
                                       Inl e \<Rightarrow> Inl e
                                     | Inr (kvs, rest) \<Rightarrow> Inr ((key, v) # kvs, rest)))))))"
| "parse_elems pf 0 s = Inl OutsideModel"
| "parse_elems pf (Suc n) s =
     (case parse_value pf n s of
        Inl e \<Rightarrow> Inl e
      | Inr (v, r1) \<Rightarrow>
          (case skip_ws r1 of
             [] \<Rightarrow> Inl JSONDecodeError
           | d # r2 \<Rightarrow>
               if d = CHR '']'' then Inr ([v], r2)
               else if d \<noteq> CHR '','' then Inl JSONDecodeError
               else
                 (case parse_elems pf n (skip_ws r2) of
                    Inl e \<Rightarrow> Inl e
                  | Inr (xs, rest) \<Rightarrow> Inr (v # xs, rest))))"

text \<open>\<open>json.loads\<close>: one value between optional white space, and nothing after it.\<close>

definition loads :: "(string \<Rightarrow> real option) \<Rightarrow> string \<Rightarrow> pyerr + json" where
  "loads parse_float s =
     (case parse_value parse_float (2 * length s + 2) (skip_ws s) of
        Inl e \<Rightarrow> Inl e
      | Inr (v, rest) \<Rightarrow> if skip_ws rest = [] then Inr v else Inl JSONDecodeError)"

section \<open>The fact record (\<open>core.py\<close>)\<close>

text \<open>The dataclass \<open>HypnotizedFact\<close>, with the types of its annotations:
  \<open>id: str\<close>, \<open>fact: str\<close>, \<open>priority: float\<close>, \<open>category: Optional[str]\<close>,
  \<open>metadata: Dict\<close>, \<open>created_at: str\<close>.\<close>

record HypnotizedFact =
  id' :: string
  fact' :: string
  priority :: real
  category :: "string option"
  metadata :: "(string \<times> json) list"
  created_at :: string

definition to_dict :: "HypnotizedFact \<Rightarrow> json" where
  "to_dict f =
     JObj [(''id'', JStr (id' f)),
           (''fact'', JStr (fact' f)),
           (''priority'', JFloat (priority f)),
           (''category'', (case category f of None \<Rightarrow> JNull | Some c \<Rightarrow> JStr c)),
           (''metadata'', JObj (metadata f)),
           (''created_at'', JStr (created_at f))]"

text \<open>The constructor call of \<open>from_dict\<close>, once the six values are there: a value
  whose type is not the annotated one gives a record this development does not
  represent.\<close>

definition make_fact :: "json \<Rightarrow> json \<Rightarrow> json \<Rightarrow> json \<Rightarrow> json \<Rightarrow> json \<Rightarrow> pyerr + HypnotizedFact" where
  "make_fact i t p c m d =
     (case (i, t, p, m, d) of
        (JStr i', JStr t', JFloat p', JObj m', JStr d') \<Rightarrow>
          (case c of
             JNull \<Rightarrow> Inr \<lparr>id' = i', fact' = t', priority = p', category = None,
                           metadata = m', created_at = d'\<rparr>
           | JStr c' \<Rightarrow> Inr \<lparr>id' = i', fact' = t', priority = p', category = Some c',
                             metadata = m', created_at = d'\<rparr>
           | _ \<Rightarrow> Inl OutsideModel)
      | _ \<Rightarrow> Inl OutsideModel)"

text \<open>\<open>from_dict\<close>: subscripting a value that is not a \<open>dict\<close> raises \<open>TypeError\<close>; a
  missing \<open>id\<close>, \<open>fact\<close> or \<open>priority\<close> raises \<open>KeyError\<close>; the other three keys have
  defaults.  \<open>now\<close> is the text of the current time, the default of \<open>created_at\<close>.\<close>

definition from_dict :: "string \<Rightarrow> json \<Rightarrow> pyerr + HypnotizedFact" where
  "from_dict now data =
     (case data of
        JObj kvs \<Rightarrow>
          (case map_of kvs ''id'' of
             None \<Rightarrow> Inl KeyError
           | Some i \<Rightarrow>
               (case map_of kvs ''fact'' of
                  None \<Rightarrow> Inl KeyError
                | Some t \<Rightarrow>
                    (case map_of kvs ''priority'' of
                       None \<Rightarrow> Inl KeyError
                     | Some p \<Rightarrow>
                         make_fact i t p
                           (case map_of kvs ''category'' of None \<Rightarrow> JNull | Some c \<Rightarrow> c)
                           (case map_of kvs ''metadata'' of None \<Rightarrow> JObj [] | Some m \<Rightarrow> m)
                           (case map_of kvs ''created_at'' of None \<Rightarrow> JStr now | Some d \<Rightarrow> d))))
      | _ \<Rightarrow> Inl TypeError)"

section \<open>The JSONL store (\<open>stores.py\<close>)\<close>

text \<open>The state of the store is the file: \<open>None\<close> when it does not exist, else its text.\<close>

type_synonym storage = "string option"

definition file_text :: "storage \<Rightarrow> string" where
  "file_text st = (case st of None \<Rightarrow> [] | Some text \<Rightarrow> text)"

definition record_line :: "(real \<Rightarrow> string) \<Rightarrow> HypnotizedFact \<Rightarrow> string" where
  "record_line float_repr f = dumps float_repr (to_dict f) @ [CHR 0x0A]"

text \<open>\<open>write\<close>: opens the file for appending (which creates it) and writes one line.\<close>

definition "write" :: "(real \<Rightarrow> string) \<Rightarrow> storage \<Rightarrow> HypnotizedFact \<Rightarrow> storage" where
  "write float_repr st f = Some (file_text st @ record_line float_repr f)"

text \<open>The loop of \<open>read_all\<close>: a blank line is passed over; \<open>JSONDecodeError\<close> and
  \<open>KeyError\<close> are caught and the line is passed over; anything else leaves the loop.\<close>

fun read_lines :: "(string \<Rightarrow> real option) \<Rightarrow> string \<Rightarrow> string list \<Rightarrow> pyerr + HypnotizedFact list" where
  "read_lines pf now [] = Inr []"
| "read_lines pf now (line # lines) =
     (if strip line = [] then read_lines pf now lines
      else
        (case bind_err (loads pf line) (from_dict now) of
           Inl JSONDecodeError \<Rightarrow> read_lines pf now lines
         | Inl KeyError \<Rightarrow> read_lines pf now lines
         | Inl e \<Rightarrow> Inl e
         | Inr f \<Rightarrow>
             (case read_lines pf now lines of
                Inl e \<Rightarrow> Inl e
              | Inr fs \<Rightarrow> Inr (f # fs))))"

definition read_all :: "(string \<Rightarrow> real option) \<Rightarrow> string \<Rightarrow> storage \<Rightarrow> pyerr + HypnotizedFact list" where
  "read_all parse_float now st =
     (case st of
        None \<Rightarrow> Inr []
      | Some text \<Rightarrow> read_lines parse_float now (splitlines text))"

text \<open>\<open>delete\<close>: returns the flag and the state of the file afterwards.\<close>

definition delete :: "(real \<Rightarrow> string) \<Rightarrow> (string \<Rightarrow> real option) \<Rightarrow> string \<Rightarrow> storage \<Rightarrow> string
    \<Rightarrow> pyerr + (bool \<times> storage)" where
  "delete float_repr parse_float now st fact_id =
     (case read_all parse_float now st of
        Inl e \<Rightarrow> Inl e
      | Inr facts \<Rightarrow>
          (let original_count = length facts;
               facts' = filter (\<lambda>f. id' f \<noteq> fact_id) facts
           in if length facts' = original_count then Inr (False, st)
              else Inr (True, Some (concat (map (record_line float_repr) facts')))))"

section \<open>The facade (\<open>Hypnotizer\<close> in \<open>core.py\<close>)\<close>

definition PRIORITY_LEVELS :: "(string \<times> real) list" where
  "PRIORITY_LEVELS =
     [(''critical'', 99 / 100), (''high'', 95 / 100), (''medium'', 85 / 100), (''low'', 75 / 100)]"

text \<open>The object: the backend it refers to (here the state of the JSONL file) and the
  default priority.\<close>

record Hypnotizer =
  memory_store :: storage
  default_priority :: real

text \<open>
  A \<open>float\<close> passed as an argument: a finite one, by the real number it denotes, an
  infinity or a NaN.  \<open>flt_less\<close> is \<open><\<close> on floats, false whenever a NaN takes part.
  The built-in \<open>min(a, b)\<close> returns \<open>b\<close> if \<open>b < a\<close> and else \<open>a\<close>; \<open>max(a, b)\<close>
  returns \<open>b\<close> if \<open>b > a\<close> and else \<open>a\<close>.
\<close>

datatype pyfloat = Finite real | PosInf | NegInf | NaN

fun flt_less :: "pyfloat \<Rightarrow> pyfloat \<Rightarrow> bool" where
  "flt_less (Finite a) (Finite b) = (a < b)"
| "flt_less (Finite a) PosInf = True"
| "flt_less NegInf (Finite b) = True"
| "flt_less NegInf PosInf = True"
| "flt_less a b = False"

definition py_min :: "pyfloat \<Rightarrow> pyfloat \<Rightarrow> pyfloat" where
  "py_min a b = (if flt_less b a then b else a)"

definition py_max :: "pyfloat \<Rightarrow> pyfloat \<Rightarrow> pyfloat" where
  "py_max a b = (if flt_less a b then b else a)"

text \<open>
  \<open>float(n)\<close> for an \<open>int\<close>: the magnitude is rounded to 53 significant bits, to
  nearest and on a tie to the even neighbour; if the rounded magnitude reaches
  \<open>2 ** 1024\<close> the conversion raises \<open>OverflowError\<close> (here \<open>None\<close>).
\<close>

fun bit_length :: "nat \<Rightarrow> nat" where
  "bit_length n = (if n = 0 then 0 else Suc (bit_length (n div 2)))"

declare bit_length.simps [simp del]

definition float_of_int :: "int \<Rightarrow> real option" where
  "float_of_int n =
     (let a = nat \<bar>n\<bar>;
          shift = bit_length a - 53;
          q = a div 2 ^ shift;
          r = a mod 2 ^ shift;
          q' = (if 2 ^ shift < 2 * r \<or> (2 * r = 2 ^ shift \<and> odd q) then q + 1 else q);
          m = q' * 2 ^ shift
      in if 2 ^ 1024 \<le> m then None else Some (if n < 0 then - real m else real m))"

text \<open>
  A numeric argument: a \<open>float\<close>, an \<open>int\<close> (a \<open>bool\<close> is the \<open>int\<close> 0 or 1), or an
  object of another type, given by what its \<open>__float__\<close> does: return a float or
  raise.  \<open>py_float\<close> is the built-in \<open>float()\<close> on such an argument.
\<close>

datatype pynum = PyFloat pyfloat | PyInt int | PyOther "pyerr + pyfloat"

definition py_float :: "pynum \<Rightarrow> pyerr + pyfloat" where
  "py_float x =
     (case x of
        PyFloat y \<Rightarrow> Inr y
      | PyInt n \<Rightarrow> (case float_of_int n of None \<Rightarrow> Inl OverflowError | Some y \<Rightarrow> Inr (Finite y))
      | PyOther r \<Rightarrow> r)"

text \<open>The \<open>priority\<close> argument of \<open>inject\<close>: a \<open>str\<close> or a number.\<close>

datatype priority_arg = Tier string | Number pynum

text \<open>The first statement of \<open>inject\<close>.  After the two comparisons the value of the
  numeric branch is a finite float (lemma \<open>clamp_finite\<close>).\<close>

definition priority_value :: "Hypnotizer \<Rightarrow> priority_arg \<Rightarrow> pyerr + real" where
  "priority_value h p =
     (case p of
        Tier name \<Rightarrow>
          (case map_of PRIORITY_LEVELS (lower name) of
             Some v \<Rightarrow> Inr v
           | None \<Rightarrow> Inr (default_priority h))
      | Number x \<Rightarrow>
          (case py_float x of
             Inl e \<Rightarrow> Inl e
           | Inr y \<Rightarrow>
               (case py_max (Finite 0) (py_min (Finite 1) y) of
                  Finite v \<Rightarrow> Inr v
                | _ \<Rightarrow> Inl OutsideModel)))"

text \<open>\<open>inject\<close>: \<open>uuid\<close> is the text of the fresh identifier and \<open>now\<close> the text of the
  current time; \<open>metadata or {}\<close> replaces a missing or empty mapping by the empty one.
  Returns the record and the object with the backend written, or the exception that
  \<open>float()\<close> raised, in which case nothing is written.\<close>

definition inject :: "(real \<Rightarrow> string) \<Rightarrow> string \<Rightarrow> string \<Rightarrow> Hypnotizer \<Rightarrow> string \<Rightarrow> priority_arg
    \<Rightarrow> string option \<Rightarrow> (string \<times> json) list option \<Rightarrow> pyerr + (HypnotizedFact \<times> Hypnotizer)" where
  "inject float_repr uuid now h text p cat meta =
     (case priority_value h p of
        Inl e \<Rightarrow> Inl e
      | Inr pv \<Rightarrow>
          (let hypnotized =
                 \<lparr>id' = uuid, fact' = strip text, priority = pv, category = cat,
                  metadata = (case meta of None \<Rightarrow> [] | Some m \<Rightarrow> m), created_at = now\<rparr>
           in Inr (hypnotized, h\<lparr>memory_store := write float_repr (memory_store h) hypnotized\<rparr>)))"

text \<open>\<open>list.sort(key=..., reverse=True)\<close>: a stable sort between two reversals, which
  keeps elements of equal key in their order.\<close>

definition sort_reverse :: "('a \<Rightarrow> real) \<Rightarrow> 'a list \<Rightarrow> 'a list" where
  "sort_reverse key xs = rev (sort_key key (rev xs))"

text \<open>The body of \<open>recall\<close> after the snapshot is read.\<close>

definition recall_facts :: "HypnotizedFact list \<Rightarrow> string option \<Rightarrow> string option \<Rightarrow> real
    \<Rightarrow> HypnotizedFact list" where
  "recall_facts facts query cat min_priority =
     (let facts1 = (case cat of None \<Rightarrow> facts
                    | Some c \<Rightarrow> filter (\<lambda>f. category f = Some c) facts);
          facts2 = (if min_priority > 0 then filter (\<lambda>f. priority f \<ge> min_priority) facts1
                    else facts1);
          facts3 = (case query of None \<Rightarrow> facts2
                    | Some q \<Rightarrow> filter (\<lambda>f. contains (lower (fact' f)) (lower q)) facts2)
      in sort_reverse priority facts3)"

definition recall :: "(string \<Rightarrow> real option) \<Rightarrow> string \<Rightarrow> Hypnotizer \<Rightarrow> string option \<Rightarrow> string option
    \<Rightarrow> real \<Rightarrow> pyerr + HypnotizedFact list" where
  "recall parse_float now h query cat min_priority =
     (case read_all parse_float now (memory_store h) of
        Inl e \<Rightarrow> Inl e
      | Inr facts \<Rightarrow> Inr (recall_facts facts query cat min_priority))"

definition forget :: "(real \<Rightarrow> string) \<Rightarrow> (string \<Rightarrow> real option) \<Rightarrow> string \<Rightarrow> Hypnotizer \<Rightarrow> string
    \<Rightarrow> pyerr + (bool \<times> Hypnotizer)" where
  "forget float_repr parse_float now h fact_id =
     (case delete float_repr parse_float now (memory_store h) fact_id of
        Inl e \<Rightarrow> Inl e
      | Inr (found, st) \<Rightarrow> Inr (found, h\<lparr>memory_store := st\<rparr>))"

text \<open>The body of \<open>list_categories\<close> after the snapshot is read: the set comprehension,
  then \<open>sorted\<close>.\<close>

definition categories_of :: "HypnotizedFact list \<Rightarrow> string list" where
  "categories_of facts =
     sorted_list_of_set (set (map (\<lambda>f. the (category f)) (filter (\<lambda>f. category f \<noteq> None) facts)))"

definition list_categories :: "(string \<Rightarrow> real option) \<Rightarrow> string \<Rightarrow> Hypnotizer \<Rightarrow> pyerr + string list" where
  "list_categories parse_float now h =
     (case read_all parse_float now (memory_store h) of
        Inl e \<Rightarrow> Inl e
      | Inr facts \<Rightarrow> Inr (categories_of facts))"

section \<open>Notions of the specification and example inputs\<close>

text \<open>The priority and the category of the record that a call of \<open>inject\<close> returns;
  the exception if the call raises.\<close>

definition injected_priority :: "pyerr + (HypnotizedFact \<times> Hypnotizer) \<Rightarrow> pyerr + real" where
  "injected_priority res = (case res of Inl e \<Rightarrow> Inl e | Inr (f, h) \<Rightarrow> Inr (priority f))"

definition injected_category :: "pyerr + (HypnotizedFact \<times> Hypnotizer) \<Rightarrow> pyerr + string option" where
  "injected_category res = (case res of Inl e \<Rightarrow> Inl e | Inr (f, h) \<Rightarrow> Inr (category f))"

text \<open>The value of \<open>max(0.0, min(1.0, y))\<close> for a float \<open>y\<close>, case by case.\<close>

fun clamped :: "pyfloat \<Rightarrow> real" where
  "clamped (Finite x) = max 0 (min 1 x)"
| "clamped PosInf = 1"
| "clamped NegInf = 0"
| "clamped NaN = 1"

text \<open>\<open>casing_of name s\<close>: the string \<open>s\<close> spells the lower-case word \<open>name\<close>, each letter
  in either case.\<close>

definition casing_of :: "string \<Rightarrow> string \<Rightarrow> bool" where
  "casing_of name s = list_all2 (\<lambda>d c. c = d \<or> code c + 32 = code d) name s"

definition is_lower_letter :: "char \<Rightarrow> bool" where
  "is_lower_letter d = (97 \<le> code d \<and> code d \<le> 122)"

text \<open>The filtering step of \<open>recall\<close> in the words of the specification: the category
  filter if a category is given, then the priority filter if the threshold is
  positive, then the text filter if a query is given.\<close>

definition filter_step :: "HypnotizedFact list \<Rightarrow> string option \<Rightarrow> string option \<Rightarrow> real
    \<Rightarrow> HypnotizedFact list" where
  "filter_step facts query cat min_priority =
     filter (\<lambda>f. case query of None \<Rightarrow> True | Some q \<Rightarrow> contains (lower (fact' f)) (lower q))
       (filter (\<lambda>f. if min_priority > 0 then priority f \<ge> min_priority else True)
          (filter (\<lambda>f. case cat of None \<Rightarrow> True | Some c \<Rightarrow> category f = Some c) facts))"

text \<open>\<open>float.__repr__\<close> and \<open>float()\<close> on the floats that the examples use.\<close>

definition repr_example :: "real \<Rightarrow> string" where
  "repr_example x =
     (if x = 1 / 2 then ''0.5'' else if x = 95 / 100 then ''0.95''
      else if x = 99 / 100 then ''0.99'' else if x = 5 then ''5.0'' else ''0.0'')"

definition float_example :: "string \<Rightarrow> real option" where
  "float_example s =
     (if s = ''0.5'' then Some (1 / 2) else if s = ''0.95'' then Some (95 / 100)
      else if s = ''0.99'' then Some (99 / 100) else if s = ''5.0'' then Some 5
      else if s = ''0.0'' then Some 0 else None)"

text \<open>The floats inside a value, and the line feed.\<close>

fun floats_of :: "json \<Rightarrow> real list" where
  "floats_of (JFloat x) = [x]"
| "floats_of (JArr xs) = concat (map floats_of xs)"
| "floats_of (JObj kvs) = concat (map (\<lambda>kv. floats_of (snd kv)) kvs)"
| "floats_of v = []"

definition LF :: char where
  "LF = CHR 0x0A"

text \<open>Two lines of a storage file,
  \<^verbatim>\<open>{"id": "a", "fact": "x", "priority": 0.5}\<close> and
  \<^verbatim>\<open>{"id": "b", "fact": "x\u0085y", "priority": 0.5}\<close>
  (the second with the six-character escape, as a writer that escapes non-ASCII
  characters emits it), and the records they hold when read at the time \<open>now\<close>.\<close>

definition line_a :: string where
  "line_a = ''{'' @ quote ''id'' @ '': '' @ quote ''a'' @ '', '' @ quote ''fact'' @ '': '' @ quote ''x''
      @ '', '' @ quote ''priority'' @ '': 0.5}''"

definition line_b :: string where
  "line_b = ''{'' @ quote ''id'' @ '': '' @ quote ''b'' @ '', '' @ quote ''fact'' @ '': ''
      @ [CHR 0x22] @ ''x'' @ [CHR 0x5C] @ ''u0085y'' @ [CHR 0x22]
      @ '', '' @ quote ''priority'' @ '': 0.5}''"

definition fact_a :: HypnotizedFact where
  "fact_a = \<lparr>id' = ''a'', fact' = ''x'', priority = 1 / 2, category = None, metadata = [],
              created_at = ''now''\<rparr>"

definition fact_b :: HypnotizedFact where
  "fact_b = \<lparr>id' = ''b'', fact' = [CHR ''x'', CHR 0x85, CHR ''y''], priority = 1 / 2,
              category = None, metadata = [], created_at = ''now''\<rparr>"

text \<open>A record whose text holds \<open>[]\<close> between two characters U+0085.\<close>

definition fact_c :: HypnotizedFact where
  "fact_c = \<lparr>id' = ''c'', fact' = ''x'' @ [CHR 0x85] @ ''[]'' @ [CHR 0x85] @ ''y'', priority = 1 / 2,
              category = None, metadata = [], created_at = ''now''\<rparr>"

text \<open>What one line of the file gives, and the lines that \<open>read_all\<close> passes over.\<close>

definition parse_line :: "(string \<Rightarrow> real option) \<Rightarrow> string \<Rightarrow> string \<Rightarrow> pyerr + HypnotizedFact" where
  "parse_line pf now line = bind_err (loads pf line) (from_dict now)"

definition skipped :: "(string \<Rightarrow> real option) \<Rightarrow> string \<Rightarrow> string \<Rightarrow> bool" where
  "skipped pf now line =
     (strip line = [] \<or> parse_line pf now line = Inl JSONDecodeError \<or> parse_line pf now line = Inl KeyError)"

text \<open>\<open>line_safe\<close>: the line that \<open>write\<close> emits for the record is read back by
  \<open>json.loads\<close> as the same object and holds no line boundary of \<open>splitlines\<close>.
  \<open>ends_lines\<close>: the text of the file is empty or ends with a line feed.\<close>

definition line_safe :: "(real \<Rightarrow> string) \<Rightarrow> (string \<Rightarrow> real option) \<Rightarrow> HypnotizedFact \<Rightarrow> bool" where
  "line_safe fr pf f =
     (loads pf (dumps fr (to_dict f)) = Inr (to_dict f) \<and>
      list_all (\<lambda>c. \<not> is_linebreak c) (dumps fr (to_dict f)))"

definition ends_lines :: "string \<Rightarrow> bool" where
  "ends_lines t = (t = [] \<or> last t = LF)"

definition h_example :: Hypnotizer where
  "h_example = \<lparr>memory_store = Some [], default_priority = 95 / 100\<rparr>"

definition h_wide :: Hypnotizer where
  "h_wide = \<lparr>memory_store = Some [], default_priority = 5\<rparr>"

section \<open>Priority normalisation in \<open>inject\<close>\<close>

lemma code_lt_256: "code c < 256"
  by (simp add: code_def)

lemma code_inj: "code c = code d \<Longrightarrow> c = d"
  by (simp add: code_def)

lemma code_char_of: "n < 256 \<Longrightarrow> code (char_of n) = n"
  by (simp add: code_def)

lemma lower_char_eq_letter:
  assumes "is_lower_letter d"
  shows "lower_char c = d \<longleftrightarrow> (c = d \<or> code c + 32 = code d)"
proof (cases "(65 \<le> code c \<and> code c \<le> 90) \<or> (192 \<le> code c \<and> code c \<le> 222 \<and> code c \<noteq> 215)")
  case True
  then have lc: "lower_char c = char_of (code c + 32)"
    by (simp add: lower_char_def)
  have small: "code c + 32 < 256"
    using True code_lt_256 [of c] by auto
  have "code (lower_char c) = code c + 32"
    using lc code_char_of [OF small] by simp
  moreover have "c \<noteq> d"
    using True assms by (auto simp: is_lower_letter_def)
  ultimately show ?thesis
    using code_inj [of "lower_char c" d] by auto
next
  case False
  then have "lower_char c = c"
    unfolding lower_char_def by (simp only: if_False)
  moreover have "code c + 32 \<noteq> code d"
    using False assms by (auto simp: is_lower_letter_def)
  ultimately show ?thesis by auto
qed

lemma lower_eq_name:
  "list_all is_lower_letter name \<Longrightarrow> lower s = name \<longleftrightarrow> casing_of name s"
proof (induction s arbitrary: name)
  case Nil
  then show ?case by (auto simp: lower_def casing_of_def)
next
  case (Cons c s)
  show ?case
  proof (cases name)
    case Nil
    then show ?thesis by (simp add: lower_def casing_of_def)
  next
    case (Cons d ds)
    with Cons.prems have d: "is_lower_letter d" and ds: "list_all is_lower_letter ds"
      by simp_all
    from Cons.IH [OF ds] lower_char_eq_letter [OF d, of c] Cons show ?thesis
      by (auto simp: lower_def casing_of_def)
  qed
qed

lemma tier_letters:
  "list_all is_lower_letter ''critical''" "list_all is_lower_letter ''high''"
  "list_all is_lower_letter ''medium''" "list_all is_lower_letter ''low''"
  by (simp_all add: is_lower_letter_def code_def)

text \<open>
  Claim C2.  A tier name \<open>critical\<close>, \<open>high\<close>, \<open>medium\<close> or \<open>low\<close>, written in any letter
  casing, gives the record the fixed priority 0.99, 0.95, 0.85 or 0.75; every other
  string gives it the default priority of the object, and no path raises.
\<close>

theorem inject_tier_priority:
  "(casing_of ''critical'' s \<longrightarrow> injected_priority (inject fr uuid now h t (Tier s) cat meta) = Inr (99 / 100)) \<and>
   (casing_of ''high'' s \<longrightarrow> injected_priority (inject fr uuid now h t (Tier s) cat meta) = Inr (95 / 100)) \<and>
   (casing_of ''medium'' s \<longrightarrow> injected_priority (inject fr uuid now h t (Tier s) cat meta) = Inr (85 / 100)) \<and>
   (casing_of ''low'' s \<longrightarrow> injected_priority (inject fr uuid now h t (Tier s) cat meta) = Inr (75 / 100)) \<and>
   (\<not> casing_of ''critical'' s \<and> \<not> casing_of ''high'' s \<and> \<not> casing_of ''medium'' s \<and> \<not> casing_of ''low'' s
      \<longrightarrow> injected_priority (inject fr uuid now h t (Tier s) cat meta) = Inr (default_priority h))"
  using lower_eq_name [OF tier_letters(1), of s] lower_eq_name [OF tier_letters(2), of s]
    lower_eq_name [OF tier_letters(3), of s] lower_eq_name [OF tier_letters(4), of s]
  by (auto simp: inject_def injected_priority_def priority_value_def PRIORITY_LEVELS_def Let_def)

theorem inject_tier_priority_witness:
  "casing_of ''critical'' ''CriTICal'' \<and>
   injected_priority (inject repr_example ''u1'' ''t1'' h_example ''x'' (Tier ''CriTICal'') None None)
     = Inr (99 / 100) \<and>
   \<not> casing_of ''critical'' ''urgent'' \<and> \<not> casing_of ''high'' ''urgent'' \<and>
   \<not> casing_of ''medium'' ''urgent'' \<and> \<not> casing_of ''low'' ''urgent'' \<and>
   injected_priority (inject repr_example ''u1'' ''t1'' h_example ''x'' (Tier ''urgent'') None None)
     = Inr (95 / 100)"
  using inject_tier_priority [of "''CriTICal''" repr_example "''u1''" "''t1''" h_example "''x''" None None]
    inject_tier_priority [of "''urgent''" repr_example "''u1''" "''t1''" h_example "''x''" None None]
  by (simp add: casing_of_def code_def h_example_def)

text \<open>\<open>float()\<close> on an \<open>int\<close>: exact below \<open>2 ** 53\<close>, an \<open>OverflowError\<close> from
  \<open>2 ** 1024\<close> on, and in between a float of the sign of the \<open>int\<close> and of magnitude at
  least 1.\<close>

lemma clamp_finite:
  "py_max (Finite 0) (py_min (Finite 1) y) =
     (case y of Finite x \<Rightarrow> Finite (max 0 (min 1 x)) | PosInf \<Rightarrow> Finite 1 | NegInf \<Rightarrow> Finite 0
      | NaN \<Rightarrow> Finite 1)"
  by (cases y) (auto simp: py_max_def py_min_def max_def min_def)

lemma bit_length_lower: "0 < a \<Longrightarrow> 2 ^ (bit_length a - 1) \<le> a"
proof (induction a rule: bit_length.induct)
  case (1 n)
  show ?case
  proof (cases "n div 2 = 0")
    case True
    with 1 show ?thesis
      by (simp add: bit_length.simps [of n] bit_length.simps [of 0])
  next
    case False
    then have "2 ^ (bit_length (n div 2) - 1) \<le> n div 2"
      using 1 by simp
    moreover have "0 < bit_length (n div 2)"
      using False by (simp add: bit_length.simps [of "n div 2"])
    ultimately have "2 * 2 ^ (bit_length (n div 2) - 1) \<le> n" by simp
    moreover have "bit_length n = Suc (bit_length (n div 2))"
      using 1 by (simp add: bit_length.simps [of n])
    ultimately show ?thesis
      using \<open>0 < bit_length (n div 2)\<close>
      by (cases "bit_length (n div 2)") simp_all
  qed
qed

lemma float_of_int_magnitude:
  assumes "float_of_int n = Some y"
  shows "(0 < n \<longrightarrow> 1 \<le> y) \<and> (n < 0 \<longrightarrow> y \<le> - 1) \<and> (n = 0 \<longrightarrow> y = 0)"
proof -
  define a where "a = nat \<bar>n\<bar>"
  define shift where "shift = bit_length a - 53"
  define q where "q = a div 2 ^ shift"
  define r where "r = a mod 2 ^ shift"
  define q' where "q' = (if 2 ^ shift < 2 * r \<or> (2 * r = 2 ^ shift \<and> odd q) then q + 1 else q)"
  define m where "m = q' * 2 ^ shift"
  have y: "y = (if n < 0 then - real m else real m)"
    using assms unfolding float_of_int_def Let_def a_def [symmetric] shift_def [symmetric]
      q_def [symmetric] r_def [symmetric] q'_def [symmetric] m_def [symmetric]
    by (simp split: if_splits)
  have zero: "m = 0" if "n = 0"
    using that by (simp add: m_def q'_def q_def r_def a_def)
  have pos: "1 \<le> m" if "n \<noteq> 0"
  proof -
    have a: "0 < a" using that by (simp add: a_def)
    have "(2::nat) ^ shift \<le> 2 ^ (bit_length a - 1)"
      by (rule power_increasing) (simp_all add: shift_def)
    then have "2 ^ shift \<le> a"
      using bit_length_lower [OF a] by (rule order_trans)
    then have "1 \<le> q"
      by (simp add: q_def div_greater_zero_iff Suc_le_eq)
    then have "1 \<le> q'" by (simp add: q'_def)
    then have "1 * 1 \<le> q' * 2 ^ shift"
      by (intro mult_le_mono) simp_all
    then show ?thesis by (simp add: m_def)
  qed
  have "1 \<le> real m" if "n \<noteq> 0"
    using pos [OF that] of_nat_mono [of 1 m] by simp
  with y zero show ?thesis
    by (cases "n = 0") auto
qed

lemma bit_length_upper: "a < 2 ^ k \<Longrightarrow> bit_length a \<le> k"
proof (induction k arbitrary: a)
  case 0
  then show ?case by (simp add: bit_length.simps [of 0])
next
  case (Suc k)
  then have "a div 2 < 2 ^ k" by simp
  from Suc.IH [OF this] show ?case
    by (simp add: bit_length.simps [of a])
qed

lemma float_of_int_small:
  assumes "\<bar>n\<bar> < 2 ^ 53"
  shows "float_of_int n = Some (real_of_int n)"
proof -
  define a where "a = nat \<bar>n\<bar>"
  have small: "a < 2 ^ 53"
    using assms by (simp add: a_def nat_less_iff)
  then have b: "bit_length a - 53 = 0"
    using bit_length_upper [of a 53] by simp
  have "(2::nat) ^ 53 \<le> 2 ^ 1024"
    by (rule power_increasing) simp_all
  with small have "\<not> 2 ^ 1024 \<le> a"
    by linarith
  then have "float_of_int n = Some (if n < 0 then - real a else real a)"
    unfolding float_of_int_def Let_def a_def [symmetric] b by simp
  then show ?thesis
    by (simp add: a_def)
qed

lemma bit_length_gt: "a < 2 ^ bit_length a"
proof (induction a rule: bit_length.induct)
  case (1 n)
  show ?case
  proof (cases "n = 0")
    case True
    then show ?thesis by (simp add: bit_length.simps [of n])
  next
    case False
    with 1 have "n div 2 < 2 ^ bit_length (n div 2)" by simp
    then have "n < 2 * 2 ^ bit_length (n div 2)" by linarith
    with False show ?thesis by (simp add: bit_length.simps [of n])
  qed
qed

lemma float_of_int_overflow:
  assumes "2 ^ 1024 \<le> \<bar>n\<bar>"
  shows "float_of_int n = None"
proof -
  define a where "a = nat \<bar>n\<bar>"
  define bits where "bits = bit_length a"
  define shift where "shift = bits - 53"
  define q where "q = a div 2 ^ shift"
  define r where "r = a mod 2 ^ shift"
  define q' where "q' = (if 2 ^ shift < 2 * r \<or> (2 * r = 2 ^ shift \<and> odd q) then q + 1 else q)"
  have big: "2 ^ 1024 \<le> a"
    using assms by (simp add: a_def le_nat_iff)
  have "(2::nat) ^ 1024 < 2 ^ bits"
    using big bit_length_gt [of a] unfolding bits_def by (rule le_less_trans)
  then have bits: "1024 < bits"
    by (rule power_less_imp_less_exp [rotated]) simp
  then have split: "bits - 1 = 52 + shift"
    by (simp add: shift_def)
  have "0 < a" using big by (simp add: less_le_trans [of 0 "2 ^ 1024" a])
  then have "2 ^ (bits - 1) \<le> a"
    unfolding bits_def by (rule bit_length_lower)
  then have low: "2 ^ 52 * 2 ^ shift \<le> a"
    by (simp only: split power_add)
  then have "2 ^ 52 \<le> q"
    by (simp add: q_def less_eq_div_iff_mult_less_eq)
  moreover have "q \<le> q'" by (simp add: q'_def)
  ultimately have "2 ^ 52 * 2 ^ shift \<le> q' * 2 ^ shift"
    by (intro mult_le_mono) simp_all
  moreover have "(2::nat) ^ 1024 \<le> 2 ^ (bits - 1)"
    using bits by (intro power_increasing) simp_all
  ultimately have "2 ^ 1024 \<le> q' * 2 ^ shift"
    by (simp only: split power_add)
  then show ?thesis
    unfolding float_of_int_def Let_def a_def [symmetric] bits_def [symmetric] shift_def [symmetric]
      q_def [symmetric] r_def [symmetric] q'_def [symmetric]
    by simp
qed

lemma priority_value_number:
  "priority_value h (Number x) = (case py_float x of Inl e \<Rightarrow> Inl e | Inr y \<Rightarrow> Inr (clamped y))"
proof (cases "py_float x")
  case (Inl e)
  then show ?thesis by (simp add: priority_value_def)
next
  case (Inr y)
  then show ?thesis
    by (cases y) (simp_all add: priority_value_def clamp_finite)
qed

lemma injected_priority_inject:
  "injected_priority (inject fr uuid now h t p cat meta) = priority_value h p"
  by (simp add: injected_priority_def inject_def Let_def split: sum.splits)

text \<open>
  Claim C3.  As stated (for every numeric argument \<open>x\<close> the record has the priority
  \<open>max(0.0, min(1.0, x))\<close>) the claim fails: the code first converts the argument with
  \<open>float()\<close>, and for the \<open>int\<close> \<open>10 ** 400\<close> that conversion raises \<open>OverflowError\<close>, so
  \<open>inject\<close> returns no record, where \<open>max(0.0, min(1.0, 10 ** 400))\<close> is 1.
\<close>

theorem inject_number_overflow_counterexample:
  "injected_priority (inject repr_example ''u1'' ''t1'' h_example ''x'' (Number (PyInt (10 ^ 400))) None None)
     = Inl OverflowError \<and>
   max 0 (min 1 (real_of_int (10 ^ 400))) = 1"
proof -
  have "(2::int) ^ 1024 \<le> \<bar>10 ^ 400\<bar>" by simp
  then have "float_of_int (10 ^ 400) = None"
    by (rule float_of_int_overflow)
  then show ?thesis
    by (simp add: injected_priority_inject priority_value_number py_float_def)
qed

text \<open>
  Claim C3, amended.  For every numeric argument \<open>x\<close> on which \<open>float(x)\<close> returns,
  the record has the priority \<open>max(0.0, min(1.0, float(x)))\<close>, and when \<open>float(x)\<close>
  raises, \<open>inject\<close> raises the same and returns no record.  For a finite float \<open>x\<close>
  this is \<open>max(0.0, min(1.0, x))\<close>; for an \<open>int\<close> \<open>x\<close> that \<open>float()\<close> converts it is
  \<open>max(0.0, min(1.0, x))\<close> as well, the rounding of \<open>float()\<close> not showing after the
  clamp.  \<open>float()\<close> converts every \<open>int\<close> of magnitude below \<open>2 ** 53\<close> and raises
  \<open>OverflowError\<close> on every \<open>int\<close> of magnitude \<open>2 ** 1024\<close> or more.
\<close>

theorem inject_number_priority:
  "injected_priority (inject fr uuid now h t (Number x) cat meta)
     = (case py_float x of Inl e \<Rightarrow> Inl e | Inr y \<Rightarrow> Inr (clamped y)) \<and>
   injected_priority (inject fr uuid now h t (Number (PyFloat (Finite v))) cat meta)
     = Inr (max 0 (min 1 v)) \<and>
   injected_priority (inject fr uuid now h t (Number (PyInt n)) cat meta)
     = (case float_of_int n of
          None \<Rightarrow> Inl OverflowError
        | Some y \<Rightarrow> Inr (max 0 (min 1 (real_of_int n)))) \<and>
   (\<bar>n\<bar> < 2 ^ 53 \<longrightarrow> float_of_int n = Some (real_of_int n)) \<and>
   (2 ^ 1024 \<le> \<bar>n\<bar> \<longrightarrow> float_of_int n = None)"
proof (intro conjI impI)
  show "injected_priority (inject fr uuid now h t (Number x) cat meta)
     = (case py_float x of Inl e \<Rightarrow> Inl e | Inr y \<Rightarrow> Inr (clamped y))"
    by (simp add: injected_priority_inject priority_value_number)
  show "injected_priority (inject fr uuid now h t (Number (PyFloat (Finite v))) cat meta)
     = Inr (max 0 (min 1 v))"
    by (simp add: injected_priority_inject priority_value_number py_float_def)
  show "injected_priority (inject fr uuid now h t (Number (PyInt n)) cat meta)
     = (case float_of_int n of
          None \<Rightarrow> Inl OverflowError
        | Some y \<Rightarrow> Inr (max 0 (min 1 (real_of_int n))))"
  proof (cases "float_of_int n")
    case None
    then show ?thesis
      by (simp add: injected_priority_inject priority_value_number py_float_def)
  next
    case (Some y)
    from float_of_int_magnitude [OF Some] have "max 0 (min 1 y) = max 0 (min 1 (real_of_int n))"
      by (cases "n = 0"; cases "0 < n") (auto simp: max_def min_def)
    with Some show ?thesis
      by (simp add: injected_priority_inject priority_value_number py_float_def)
  qed
  show "float_of_int n = Some (real_of_int n)" if "\<bar>n\<bar> < 2 ^ 53"
    using that by (rule float_of_int_small)
  show "float_of_int n = None" if "2 ^ 1024 \<le> \<bar>n\<bar>"
    using that by (rule float_of_int_overflow)
qed

theorem inject_number_priority_witness:
  "\<bar>7 :: int\<bar> < 2 ^ 53 \<and> float_of_int 7 = Some 7 \<and>
   injected_priority (inject repr_example ''u1'' ''t1'' h_example ''x'' (Number (PyInt 7)) None None) = Inr 1 \<and>
   (2 :: int) ^ 1024 \<le> \<bar>10 ^ 400\<bar> \<and> float_of_int (10 ^ 400) = None \<and>
   injected_priority (inject repr_example ''u1'' ''t1'' h_example ''x''
     (Number (PyFloat (Finite (1 / 4)))) None None) = Inr (1 / 4)"
proof -
  have a: "\<bar>7 :: int\<bar> < 2 ^ 53" by simp
  have b: "(2 :: int) ^ 1024 \<le> \<bar>10 ^ 400\<bar>" by simp
  note w1 = inject_number_priority [where fr = repr_example and uuid = "''u1''" and now = "''t1''"
      and h = h_example and t = "''x''" and x = "PyInt 7" and cat = None and meta = None
      and v = "1 / 4" and n = 7]
  note w2 = inject_number_priority [where fr = repr_example and uuid = "''u1''" and now = "''t1''"
      and h = h_example and t = "''x''" and x = "PyInt 7" and cat = None and meta = None
      and v = "1 / 4" and n = "10 ^ 400"]
  note int7 = w1 [THEN conjunct2, THEN conjunct2, THEN conjunct1]
  note flt = w1 [THEN conjunct2, THEN conjunct1]
  note small = w1 [THEN conjunct2, THEN conjunct2, THEN conjunct2, THEN conjunct1]
  note large = w2 [THEN conjunct2, THEN conjunct2, THEN conjunct2, THEN conjunct2]
  from small a have c: "float_of_int 7 = Some 7" by simp
  from large b have d: "float_of_int (10 ^ 400) = None" by blast
  have e: "injected_priority (inject repr_example ''u1'' ''t1'' h_example ''x''
      (Number (PyInt 7)) None None) = Inr 1"
    unfolding int7 c by simp
  from flt have f: "injected_priority (inject repr_example ''u1'' ''t1'' h_example ''x''
     (Number (PyFloat (Finite (1 / 4)))) None None) = Inr (1 / 4)"
    by simp
  show ?thesis
    by (intro conjI) (rule a b c d e f)+
qed

text \<open>
  Claim C7.  As stated (the priority of the record lies in the unit interval whatever
  the caller passes) the claim fails: an unrecognised tier name gives the default
  priority of the object as it was configured, and that value is not clamped.
\<close>

theorem inject_priority_unit_counterexample:
  "injected_priority (inject repr_example ''u1'' ''t1'' h_wide ''x'' (Tier ''urgent'') None None) = Inr 5
   \<and> \<not> (5 :: real) \<le> 1"
  by (simp add: injected_priority_inject priority_value_def PRIORITY_LEVELS_def lower_def lower_char_def
      code_def h_wide_def)

lemma tier_values_unit: "map_of PRIORITY_LEVELS k = Some v \<Longrightarrow> 0 \<le> v \<and> v \<le> 1"
  by (auto simp: PRIORITY_LEVELS_def split: if_splits)

lemma clamped_unit: "0 \<le> clamped y \<and> clamped y \<le> 1"
  by (cases y) simp_all

text \<open>
  Claim C7, amended.  When the default priority of the object lies in the unit
  interval, the priority of the record lies in the unit interval for every priority
  argument, tier name or number; \<open>inject\<close> returns no record only when \<open>float()\<close> raises
  on a numeric argument.
\<close>

theorem inject_priority_unit:
  assumes "0 \<le> default_priority h" and "default_priority h \<le> 1"
  shows "case injected_priority (inject fr uuid now h t p cat meta) of
           Inr v \<Rightarrow> 0 \<le> v \<and> v \<le> 1
         | Inl e \<Rightarrow> \<exists>x. p = Number x \<and> py_float x = Inl e"
proof (cases p)
  case (Tier name)
  show ?thesis
  proof (cases "map_of PRIORITY_LEVELS (lower name)")
    case None
    with Tier assms show ?thesis
      by (simp add: injected_priority_inject priority_value_def)
  next
    case (Some v)
    with Tier tier_values_unit [OF Some] show ?thesis
      by (simp add: injected_priority_inject priority_value_def)
  qed
next
  case (Number x)
  then show ?thesis
    using clamped_unit
    by (simp add: injected_priority_inject priority_value_number split: sum.splits)
qed

theorem inject_priority_unit_witness:
  "0 \<le> default_priority h_example \<and> default_priority h_example \<le> 1 \<and>
   injected_priority (inject repr_example ''u1'' ''t1'' h_example ''x'' (Tier ''urgent'') None None)
     = Inr (95 / 100) \<and> (0 :: real) \<le> 95 / 100 \<and> (95 :: real) / 100 \<le> 1"
proof -
  have a: "0 \<le> default_priority h_example" and b: "default_priority h_example \<le> 1"
    by (simp_all add: h_example_def)
  have c: "injected_priority (inject repr_example ''u1'' ''t1'' h_example ''x'' (Tier ''urgent'') None None)
     = Inr (95 / 100)"
    by (simp add: injected_priority_inject priority_value_def PRIORITY_LEVELS_def lower_def
        lower_char_def code_def h_example_def)
  from inject_priority_unit [OF a b, where fr = repr_example and uuid = "''u1''" and now = "''t1''"
      and t = "''x''" and p = "Tier ''urgent''" and cat = None and meta = None]
  have "(0 :: real) \<le> 95 / 100 \<and> (95 :: real) / 100 \<le> 1"
    unfolding c by simp
  with a b c show ?thesis by blast
qed

section \<open>\<open>recall\<close> and \<open>list_categories\<close>\<close>

lemma recall_facts_sort:
  "recall_facts facts query cat m = sort_reverse priority (filter_step facts query cat m)"
  by (cases query; cases cat) (simp_all add: recall_facts_def filter_step_def Let_def)

lemma sort_reverse_sorted: "sorted_wrt (\<lambda>a b. key b \<le> key a) (sort_reverse key xs)"
proof -
  have "sorted (map key (sort_key key (rev xs)))"
    by (rule sorted_sort_key)
  then have "sorted_wrt (\<lambda>a b. key a \<le> key b) (sort_key key (rev xs))"
    by (simp add: sorted_map)
  then show ?thesis
    by (simp add: sort_reverse_def sorted_wrt_rev)
qed

lemma sort_reverse_stable:
  "filter (\<lambda>y. key y = k) (sort_reverse key xs) = filter (\<lambda>y. key y = k) xs"
  by (simp add: sort_reverse_def sort_key_stable flip: rev_filter)

lemma sort_reverse_mset: "mset (sort_reverse key xs) = mset xs"
  by (simp add: sort_reverse_def)

text \<open>
  Claim C6.  On every snapshot and for every combination of the optional arguments,
  \<open>recall\<close> returns the records that pass the category filter (if a category is
  given), the priority filter (if the threshold is positive) and the
  case-insensitive text filter (if a query is given), ordered by priority from high
  to low; the records of one priority keep the order the filtering step left them in.
  \<open>recall\<close> itself is this computation on the snapshot that \<open>read_all\<close> returns.
\<close>

theorem recall_filter_sort:
  "sorted_wrt (\<lambda>a b. priority b \<le> priority a) (recall_facts facts query cat m) \<and>
   mset (recall_facts facts query cat m) = mset (filter_step facts query cat m) \<and>
   (\<forall>p. filter (\<lambda>f. priority f = p) (recall_facts facts query cat m)
        = filter (\<lambda>f. priority f = p) (filter_step facts query cat m)) \<and>
   recall pf now h query cat m
     = map_sum (\<lambda>e. e) (\<lambda>snapshot. recall_facts snapshot query cat m) (read_all pf now (memory_store h))"
proof (intro conjI)
  show "recall pf now h query cat m
    = map_sum (\<lambda>e. e) (\<lambda>snapshot. recall_facts snapshot query cat m) (read_all pf now (memory_store h))"
    by (simp add: recall_def split: sum.splits)
qed (simp_all add: recall_facts_sort sort_reverse_sorted sort_reverse_stable sort_reverse_mset)

lemma categories_set: "set (categories_of facts) = {c. \<exists>f \<in> set facts. category f = Some c}"
  by (force simp: categories_of_def image_iff)

text \<open>
  Claim C8.  On every snapshot, \<open>list_categories\<close> returns the categories that
  occur in some record, each once, in strictly ascending lexicographic order; a
  record without a category contributes nothing.  \<open>list_categories\<close> itself is
  this computation on the snapshot that \<open>read_all\<close> returns.
\<close>

theorem list_categories_sorted_distinct:
  "sorted_wrt (<) (categories_of facts) \<and>
   set (categories_of facts) = {c. \<exists>f \<in> set facts. category f = Some c} \<and>
   list_categories pf now h = map_sum (\<lambda>e. e) categories_of (read_all pf now (memory_store h))"
proof (intro conjI)
  show "sorted_wrt (<) (categories_of facts)"
    by (simp add: categories_of_def flip: strict_sorted_iff)
  show "set (categories_of facts) = {c. \<exists>f \<in> set facts. category f = Some c}"
    by (rule categories_set)
  show "list_categories pf now h = map_sum (\<lambda>e. e) categories_of (read_all pf now (memory_store h))"
    by (simp add: list_categories_def split: sum.splits)
qed

text \<open>
  Claim C10.  The empty string is a category like any other: \<open>inject\<close> with category
  \<open>""\<close> gives a record whose category is \<open>""\<close>, not an absent one (for every priority
  argument on which \<open>inject\<close> returns, a tier name among them); \<open>recall\<close> with
  category \<open>""\<close> returns exactly the records whose category is \<open>""\<close>; and
  \<open>list_categories\<close> contains \<open>""\<close> exactly when such a record is in the snapshot.
\<close>

theorem empty_category_present:
  "injected_category (inject fr uuid now h t p (Some []) meta)
     = (case priority_value h p of Inl e \<Rightarrow> Inl e | Inr v \<Rightarrow> Inr (Some [])) \<and>
   injected_category (inject fr uuid now h t (Tier s) (Some []) meta) = Inr (Some []) \<and>
   mset (recall_facts facts None (Some []) 0) = mset (filter (\<lambda>f. category f = Some []) facts) \<and>
   ([] \<in> set (categories_of facts)) = (\<exists>f \<in> set facts. category f = Some [])"
proof (intro conjI)
  show "injected_category (inject fr uuid now h t p (Some []) meta)
     = (case priority_value h p of Inl e \<Rightarrow> Inl e | Inr v \<Rightarrow> Inr (Some []))"
    by (simp add: injected_category_def inject_def Let_def split: sum.splits)
  show "injected_category (inject fr uuid now h t (Tier s) (Some []) meta) = Inr (Some [])"
    by (simp add: injected_category_def inject_def Let_def priority_value_def split: option.splits)
  show "mset (recall_facts facts None (Some []) 0) = mset (filter (\<lambda>f. category f = Some []) facts)"
    by (simp add: recall_facts_sort filter_step_def sort_reverse_mset)
  show "([] \<in> set (categories_of facts)) = (\<exists>f \<in> set facts. category f = Some [])"
    unfolding categories_set by simp
qed

section \<open>\<open>write\<close>\<close>

lemma code_LF: "code c = 10 \<longleftrightarrow> c = LF"
  using code_inj [of c LF] by (auto simp: LF_def code_def)

lemma set_join: "set (join sep xs) \<subseteq> set sep \<union> (\<Union>x \<in> set xs. set x)"
  by (induction sep xs rule: join.induct) auto

lemma show_nat_digits: "c \<in> set (show_nat n) \<Longrightarrow> is_digit c"
proof (induction n rule: show_nat.induct)
  case (1 n)
  have d: "is_digit (digit_char k)" if "k < 10" for k
    using that code_char_of [of "48 + k"] by (simp add: is_digit_def digit_char_def)
  show ?case
  proof (cases "n < 10")
    case True
    with 1 d show ?thesis by (simp add: show_nat.simps [of n])
  next
    case False
    have "n mod 10 < 10" by simp
    with False 1 d [of "n mod 10"] show ?thesis
      by (auto simp: show_nat.simps [of n])
  qed
qed

lemma show_int_no_LF: "LF \<notin> set (show_int i)"
proof
  assume "LF \<in> set (show_int i)"
  then have "LF = CHR ''-'' \<or> is_digit LF"
    by (auto simp: show_int_def dest: show_nat_digits split: if_splits)
  then show False
    by (simp add: LF_def is_digit_def code_def)
qed

lemma hex_char_no_LF: "d < 16 \<Longrightarrow> hex_char d \<noteq> LF"
proof
  assume d: "d < 16" and "hex_char d = LF"
  then have "code (hex_char d) = 10" by (simp add: code_LF)
  moreover have "code (hex_char d) = (if d < 10 then 48 + d else 87 + d)"
    using d code_char_of [of "48 + d"] code_char_of [of "87 + d"] by (simp add: hex_char_def)
  ultimately show False by (simp split: if_splits)
qed

lemma escape_char_no_LF: "LF \<notin> set (escape_char c)"
proof -
  have a: "hex_char (code c div 16) \<noteq> LF"
    using code_lt_256 [of c] by (intro hex_char_no_LF) simp
  have b: "hex_char (code c mod 16) \<noteq> LF"
    by (intro hex_char_no_LF) simp
  have c: "CHR 0x5C \<noteq> LF" "CHR 0x22 \<noteq> LF" "CHR ''n'' \<noteq> LF" "CHR ''r'' \<noteq> LF" "CHR ''t'' \<noteq> LF"
    "CHR ''b'' \<noteq> LF" "CHR ''f'' \<noteq> LF" "CHR ''u'' \<noteq> LF" "CHR ''0'' \<noteq> LF"
    by (simp_all add: LF_def)
  show ?thesis
    using a b c code_LF [of c] by (auto simp: escape_char_def)
qed

lemma quote_no_LF: "LF \<notin> set (quote s)"
  using escape_char_no_LF by (auto simp: quote_def LF_def)

lemma dumps_no_LF:
  "(\<And>x. x \<in> set (floats_of v) \<Longrightarrow> LF \<notin> set (fr x)) \<Longrightarrow> LF \<notin> set (dumps fr v)"
proof (induction v)
  case (JArr xs)
  have "LF \<notin> set y" if "y \<in> set (map (dumps fr) xs)" for y
    using that JArr by auto
  moreover have "LF \<notin> set '', ''" by (simp add: LF_def)
  ultimately have "LF \<notin> set (join '', '' (map (dumps fr) xs))"
    using set_join [of "'', ''" "map (dumps fr) xs"] by blast
  then show ?case by (simp add: LF_def)
next
  case (JObj kvs)
  have "LF \<notin> set y" if "y \<in> set (map (\<lambda>kv. quote (fst kv) @ '': '' @ dumps fr (snd kv)) kvs)" for y
  proof -
    from that obtain kv where kv: "kv \<in> set kvs" and y: "y = quote (fst kv) @ '': '' @ dumps fr (snd kv)"
      by auto
    have "LF \<notin> set (dumps fr (snd kv))"
    proof (rule JObj.IH [of kv "snd kv"])
      show "kv \<in> set kvs" by (rule kv)
      show "snd kv \<in> Basic_BNFs.snds kv" by (cases kv) simp
      show "LF \<notin> set (fr x)" if "x \<in> set (floats_of (snd kv))" for x
        using that kv JObj.prems [of x] by auto
    qed
    with y quote_no_LF [of "fst kv"] show ?thesis by (auto simp: LF_def)
  qed
  moreover have "LF \<notin> set '', ''" by (simp add: LF_def)
  ultimately have "LF \<notin> set (join '', '' (map (\<lambda>kv. quote (fst kv) @ '': '' @ dumps fr (snd kv)) kvs))"
    using set_join [of "'', ''" "map (\<lambda>kv. quote (fst kv) @ '': '' @ dumps fr (snd kv)) kvs"] by blast
  then show ?case by (simp add: LF_def)
qed (simp_all add: quote_no_LF show_int_no_LF, simp_all add: LF_def)

text \<open>
  Claim C9.  On every prior state of the file, \<open>write\<close> leaves the file with its
  previous text followed by one line for the record and a line feed; that line holds
  no line feed itself, so exactly one newline-terminated line is added, the previous
  text is a prefix of the new one and the file has grown.  (The text of a float is not
  part of this development: the claim is proved for floats whose text holds no line
  feed.)
\<close>

theorem write_appends_line:
  assumes "\<forall>x \<in> set (floats_of (to_dict f)). LF \<notin> set (fr x)"
  shows "write fr st f = Some (file_text st @ dumps fr (to_dict f) @ [LF]) \<and>
         LF \<notin> set (dumps fr (to_dict f)) \<and>
         prefix (file_text st) (file_text (write fr st f)) \<and>
         length (file_text st) < length (file_text (write fr st f))"
  using dumps_no_LF [of "to_dict f" fr] assms
  by (simp add: write_def record_line_def file_text_def LF_def)

theorem write_appends_line_witness:
  "floats_of (to_dict fact_a) = [1 / 2] \<and> LF \<notin> set (repr_example (1 / 2)) \<and>
   write repr_example (Some line_b) fact_a
     = Some (file_text (Some line_b) @ dumps repr_example (to_dict fact_a) @ [LF]) \<and>
   LF \<notin> set (dumps repr_example (to_dict fact_a)) \<and>
   prefix (file_text (Some line_b)) (file_text (write repr_example (Some line_b) fact_a)) \<and>
   length (file_text (Some line_b)) < length (file_text (write repr_example (Some line_b) fact_a))"
proof -
  have h: "\<forall>x \<in> set (floats_of (to_dict fact_a)). LF \<notin> set (repr_example x)"
    by (simp add: to_dict_def fact_a_def repr_example_def LF_def)
  have e: "floats_of (to_dict fact_a) = [1 / 2] \<and> LF \<notin> set (repr_example (1 / 2))"
    by (simp add: to_dict_def fact_a_def repr_example_def LF_def)
  from write_appends_line [OF h, of "Some line_b"] e show ?thesis
    by blast
qed

section \<open>\<open>read_all\<close> and \<open>delete\<close>\<close>

text \<open>Appending to a text that ends its last line keeps the lines it had.\<close>

lemma LF_facts: "code LF = 10" "is_linebreak LF"
  by (simp_all add: LF_def code_def is_linebreak_def)

lemma splitlines_from_LF:
  "splitlines_from cur (t @ LF # u) = splitlines_from cur (t @ [LF]) @ splitlines_from [] u"
proof (induction cur t rule: splitlines_from.induct)
  case (1 cur)
  show ?case by (simp add: LF_facts)
next
  case (2 cur c cs)
  show ?case
  proof (cases "code c = 13")
    case True
    show ?thesis
    proof (cases cs)
      case Nil
      with True show ?thesis by (simp add: LF_facts)
    next
      case (Cons d ds)
      with True 2 show ?thesis by simp
    qed
  next
    case False
    with 2 show ?thesis by simp
  qed
qed

lemma splitlines_append:
  "t = [] \<or> last t = LF \<Longrightarrow> splitlines (t @ u) = splitlines t @ splitlines u"
proof (cases "t = []")
  case True
  then show ?thesis by (simp add: splitlines_def)
next
  case False
  assume "t = [] \<or> last t = LF"
  with False obtain t' where "t = t' @ [LF]"
    by (metis append_butlast_last_id)
  then show ?thesis
    using splitlines_from_LF [of "[]" t' u] by (simp add: splitlines_def)
qed

text \<open>
  After \<open>write\<close> to a file whose text ends its last line, \<open>read_all\<close> returns what it
  returned before, followed by what the new line gives.  Records that are
  \<open>line_safe\<close> are read back as they were written, in the order of writing, and
  \<open>delete\<close> behaves as a filter on them.
\<close>

lemma from_dict_to_dict: "from_dict now (to_dict f) = Inr f"
  by (cases "category f") (simp_all add: from_dict_def to_dict_def make_fact_def)

lemma splitlines_from_plain:
  "list_all (\<lambda>c. \<not> is_linebreak c) t \<Longrightarrow> splitlines_from cur (t @ [LF]) = [cur @ t]"
proof (induction t arbitrary: cur)
  case Nil
  show ?case by (simp add: LF_facts)
next
  case (Cons c t)
  then have "code c \<noteq> 13" by (auto simp: is_linebreak_def)
  with Cons show ?case by simp
qed

lemma dumps_to_dict_head: "\<exists>r. dumps fr (to_dict f) = CHR ''{'' # r"
  by (simp add: to_dict_def)

lemma strip_nonblank: "\<not> isspace c \<Longrightarrow> strip (c # r) \<noteq> []"
proof -
  assume c: "\<not> isspace c"
  have "dropWhile isspace (rev (c # r)) \<noteq> []"
    using c by (simp add: dropWhile_eq_Nil_conv)
  with c show ?thesis by (simp add: strip_def)
qed

lemma read_record_line:
  assumes "line_safe fr pf f"
  shows "read_lines pf now (splitlines (record_line fr f)) = Inr [f]"
proof -
  obtain r where r: "dumps fr (to_dict f) = CHR ''{'' # r"
    using dumps_to_dict_head by blast
  have "\<not> isspace (CHR ''{'')" by (simp add: isspace_def code_def)
  then have nb: "strip (dumps fr (to_dict f)) \<noteq> []"
    unfolding r by (rule strip_nonblank)
  have sp: "splitlines (record_line fr f) = [dumps fr (to_dict f)]"
    using assms splitlines_from_plain [of "dumps fr (to_dict f)" "[]"]
    by (simp add: line_safe_def splitlines_def record_line_def LF_def)
  show ?thesis
    using assms nb by (simp add: sp line_safe_def bind_err_def from_dict_to_dict)
qed

lemma read_lines_append:
  "read_lines pf now (xs @ ys) =
     (case read_lines pf now xs of
        Inl e \<Rightarrow> Inl e
      | Inr fs \<Rightarrow> (case read_lines pf now ys of Inl e \<Rightarrow> Inl e | Inr gs \<Rightarrow> Inr (fs @ gs)))"
  by (induction xs) (auto split: sum.splits pyerr.splits)

lemma read_all_write:
  assumes "ends_lines (file_text st)"
  shows "read_all pf now (write fr st f) =
     (case read_all pf now st of
        Inl e \<Rightarrow> Inl e
      | Inr fs \<Rightarrow>
          (case read_lines pf now (splitlines (record_line fr f)) of
             Inl e \<Rightarrow> Inl e
           | Inr gs \<Rightarrow> Inr (fs @ gs)))"
proof -
  have "splitlines (file_text st @ record_line fr f)
      = splitlines (file_text st) @ splitlines (record_line fr f)"
    using assms by (intro splitlines_append) (simp add: ends_lines_def)
  moreover have "read_all pf now st = read_lines pf now (splitlines (file_text st))"
    by (cases st) (simp_all add: read_all_def file_text_def splitlines_def)
  ultimately show ?thesis
    by (simp add: read_all_def write_def read_lines_append)
qed

lemma ends_lines_write: "ends_lines (file_text (write fr st f))"
  by (simp add: ends_lines_def write_def file_text_def record_line_def LF_def)

lemma read_all_writes:
  assumes "ends_lines (file_text st)" and "list_all (line_safe fr pf) fs"
  shows "read_all pf now (foldl (write fr) st fs) =
     (case read_all pf now st of Inl e \<Rightarrow> Inl e | Inr gs \<Rightarrow> Inr (gs @ fs))"
  using assms
proof (induction fs arbitrary: st)
  case Nil
  then show ?case by (simp split: sum.splits)
next
  case (Cons f fs)
  from Cons.prems have f: "line_safe fr pf f" and fs: "list_all (line_safe fr pf) fs"
    by simp_all
  have "read_all pf now (foldl (write fr) (write fr st f) fs) =
     (case read_all pf now (write fr st f) of Inl e \<Rightarrow> Inl e | Inr gs \<Rightarrow> Inr (gs @ fs))"
    by (rule Cons.IH [OF ends_lines_write fs])
  then show ?case
    using read_all_write [OF Cons.prems(1), of pf now fr f] read_record_line [OF f, of now]
    by (simp split: sum.splits)
qed

lemma rewrite_is_writes:
  "Some (t @ concat (map (record_line fr) fs)) = foldl (write fr) (Some t) fs"
proof (induction fs arbitrary: t)
  case Nil
  show ?case by simp
next
  case (Cons f fs)
  from Cons [of "t @ record_line fr f"] show ?case
    by (simp add: write_def file_text_def)
qed

lemma delete_result:
  assumes "read_all pf now st = Inr facts"
    and "list_all (line_safe fr pf) (filter (\<lambda>f. id' f \<noteq> fact_id) facts)"
  shows "\<exists>st'. delete fr pf now st fact_id = Inr (\<exists>f \<in> set facts. id' f = fact_id, st') \<and>
           read_all pf now st' = Inr (filter (\<lambda>f. id' f \<noteq> fact_id) facts) \<and>
           ((\<forall>f \<in> set facts. id' f \<noteq> fact_id) \<longrightarrow> st' = st)"
proof (cases "\<exists>f \<in> set facts. id' f = fact_id")
  case False
  then have "filter (\<lambda>f. id' f \<noteq> fact_id) facts = facts" by (simp add: filter_id_conv)
  with False assms show ?thesis by (simp add: delete_def Let_def)
next
  case True
  then obtain g where "g \<in> set facts" and "\<not> id' g \<noteq> fact_id"
    by auto
  then have "length (filter (\<lambda>f. id' f \<noteq> fact_id) facts) < length facts"
    by (rule length_filter_less)
  then have ne: "length (filter (\<lambda>f. id' f \<noteq> fact_id) facts) \<noteq> length facts"
    by simp
  have "read_all pf now (foldl (write fr) (Some []) (filter (\<lambda>f. id' f \<noteq> fact_id) facts))
      = Inr (filter (\<lambda>f. id' f \<noteq> fact_id) facts)"
    using read_all_writes [OF _ assms(2), of "Some []" now]
    by (simp add: ends_lines_def file_text_def read_all_def splitlines_def)
  then have "read_all pf now (Some (concat (map (record_line fr) (filter (\<lambda>f. id' f \<noteq> fact_id) facts))))
      = Inr (filter (\<lambda>f. id' f \<noteq> fact_id) facts)"
    using rewrite_is_writes [of "[]" fr] by simp
  with True ne assms(1) show ?thesis
    by (auto simp: delete_def Let_def)
qed

text \<open>The record \<open>fact_a\<close> is \<open>line_safe\<close>; the record \<open>fact_b\<close>, with U+0085 in its
  text, is not.\<close>

lemma line_safe_examples:
  "line_safe repr_example float_example fact_a \<and> \<not> line_safe repr_example float_example fact_b"
  by code_simp

text \<open>As long as every line is blank, fails with one of the two caught exceptions or
  gives a record, \<open>read_all\<close> returns the records of the lines, in the order of the
  lines.\<close>

lemma read_lines_skips:
  "list_all (\<lambda>line. skipped pf now line \<or> (\<exists>f. parse_line pf now line = Inr f)) lines \<Longrightarrow>
   read_lines pf now lines
     = Inr (map (\<lambda>line. projr (parse_line pf now line)) (filter (\<lambda>line. \<not> skipped pf now line) lines))"
proof (induction lines)
  case Nil
  then show ?case by simp
next
  case (Cons line lines)
  then have ih: "read_lines pf now lines
     = Inr (map (\<lambda>line. projr (parse_line pf now line)) (filter (\<lambda>line. \<not> skipped pf now line) lines))"
    by simp
  from Cons.prems have "skipped pf now line \<or> (\<exists>f. parse_line pf now line = Inr f)"
    by simp
  then show ?case
  proof
    assume "skipped pf now line"
    then show ?thesis
      using ih by (auto simp: skipped_def parse_line_def)
  next
    assume "\<exists>f. parse_line pf now line = Inr f"
    then obtain f where f: "parse_line pf now line = Inr f" ..
    then have "\<not> skipped pf now line \<or> strip line = []"
      by (auto simp: skipped_def)
    then show ?thesis
      using ih f by (auto simp: skipped_def parse_line_def)
  qed
qed

text \<open>
  Claim C1.  A line that is not JSON is passed over, but a line that is JSON and not
  an object is not: subscripting the parsed value raises \<open>TypeError\<close>, which the
  handler of \<open>read_all\<close> does not catch.  The file
  \<^verbatim>\<open>{"id": "a", "fact": "x", "priority": 0.5}\<close>, \<^verbatim>\<open>[]\<close>
  makes \<open>read_all\<close> raise, where the claim has it return the one record.  The store
  writes such a file itself: after \<open>write\<close> of the record \<open>fact_c\<close> to an empty file,
  \<open>splitlines\<close> cuts the line at each U+0085 and the middle piece is \<^verbatim>\<open>[]\<close>.
\<close>

theorem read_all_raises_on_array_line:
  "read_all float_example ''now'' (Some (line_a @ [LF] @ ''not json'' @ [LF])) = Inr [fact_a] \<and>
   read_all float_example ''now'' (Some (line_a @ [LF] @ ''[]'' @ [LF])) = Inl TypeError \<and>
   read_all float_example ''now'' (write repr_example (Some []) fact_c) = Inl TypeError"
  by code_simp

text \<open>
  Claim C4.  A record whose text holds the character U+0085 does not come back:
  \<open>json.dumps(..., ensure_ascii=False)\<close> writes the character as it is, and
  \<open>splitlines\<close> takes it for a line boundary, so the line is read as two pieces
  that are not JSON.  Written to an empty file, the record \<open>fact_b\<close> leaves a file
  from which \<open>read_all\<close> returns no record, where the claim has it return
  \<open>fact_b\<close>; the record \<open>fact_a\<close> does come back.
\<close>

theorem read_all_loses_written_record:
  "read_all float_example ''now'' (write repr_example (Some []) fact_a) = Inr [fact_a] \<and>
   read_all float_example ''now'' (write repr_example (Some []) fact_b) = Inr []"
  by code_simp

text \<open>
  Claim C5.  From the file with the lines \<open>line_a\<close> and \<open>line_b\<close>, \<open>read_all\<close> returns
  the records \<open>a\<close> and \<open>b\<close>.  Deleting \<open>a\<close> returns true and rewrites the file with the
  line of \<open>b\<close>, now with the character U+0085 as it is; from that file \<open>read_all\<close>
  returns no record, where the claim has the remaining record \<open>b\<close> kept.  On the
  file that \<open>write\<close> of the record \<open>fact_c\<close> leaves, \<open>delete\<close> raises \<open>TypeError\<close>,
  where the claim has it return a truth value.
\<close>

theorem delete_loses_remaining_record:
  "read_all float_example ''now'' (Some (line_a @ [LF] @ line_b @ [LF])) = Inr [fact_a, fact_b] \<and>
   delete repr_example float_example ''now'' (Some (line_a @ [LF] @ line_b @ [LF])) ''a''
     = Inr (True, Some (record_line repr_example fact_b)) \<and>
   read_all float_example ''now'' (Some (record_line repr_example fact_b)) = Inr [] \<and>
   delete repr_example float_example ''now'' (write repr_example (Some []) fact_c) ''c'' = Inl TypeError"
  by code_simp

end
